theory Spec2Isabelle
  imports Complex_Main "HOL-Library.Multiset"
begin

section \<open>Monte Carlo module: Die, Game, Analyzer\<close>

text \<open>
  A shallow embedding of \<^verbatim>\<open>montecarlo.py\<close>. Faces are values of a type \<open>'f\<close> of
  ordinary (non-null) Python values. Weights and uniform variates are reals that stand
  for finite float64 values: sums and quotients are exact, except that a sum of weights
  beyond the float64 range is infinite (\<open>float_overflow\<close>). Rounding is not modelled:
  the examples below use weights and variates on which the float64 computation is exact,
  and no general statement says that a roll returns or which face a variate selects.
  Exceptions are values of
  \<open>py_error\<close>: the spec's \<open>InvalidArgument\<close>, \<open>NotFound\<close> and \<open>InvalidState\<close> are
  the \<open>TypeError\<close> and \<open>ValueError\<close> the source raises.
\<close>

datatype py_error = TypeError | ValueError | IndexError

subsection \<open>Die\<close>

text \<open>
  The argument of \<^verbatim>\<open>Die.__init__\<close> is any Python object; the constructor only asks
  whether it is a \<^verbatim>\<open>list\<close> or a (one-dimensional) \<^verbatim>\<open>numpy.ndarray\<close>.
\<close>

datatype 'f faces_arg = PyList "'f list" | NdArray "'f list" | NotListOrArray

text \<open>
  The attribute \<^verbatim>\<open>die\<close> is a DataFrame with the columns \<^verbatim>\<open>face\<close> and
  \<^verbatim>\<open>weight\<close>: a list of rows, in construction order.
\<close>

type_synonym 'f die = "('f \<times> real) list"

definition face_col :: "'f die \<Rightarrow> 'f list" where
  "face_col d = map fst d"

definition weight_col :: "'f die \<Rightarrow> real list" where
  "weight_col d = map snd d"

definition seq_of :: "'f faces_arg \<Rightarrow> 'f list option" where
  "seq_of arg = (case arg of PyList fs \<Rightarrow> Some fs | NdArray fs \<Rightarrow> Some fs | NotListOrArray \<Rightarrow> None)"

text \<open>
  \<^verbatim>\<open>
  if not isinstance(faces, (list, np.ndarray)):
      raise TypeError("Faces must be a list or numpy array.")
  self.die = pd.DataFrame({'face': faces, 'weight': 1.0})
  \<close>
\<close>

definition Die_init :: "'f faces_arg \<Rightarrow> py_error + 'f die" where
  "Die_init arg =
     (case seq_of arg of
        None \<Rightarrow> Inl TypeError
      | Some fs \<Rightarrow> Inr (map (\<lambda>f. (f, 1)) fs))"

text \<open>
  \<^verbatim>\<open>
  if face not in self.die['face'].values:
      raise ValueError(f"Face {face} does not exist.")
  self.die.loc[self.die['face'] == face, 'weight'] = new_weight
  \<close>
  The assignment writes the weight of every row whose face equals \<open>face\<close>.
\<close>

definition change_weight :: "'f \<Rightarrow> real \<Rightarrow> 'f die \<Rightarrow> py_error + 'f die" where
  "change_weight face new_weight d =
     (if face \<notin> set (face_col d) then Inl ValueError
      else Inr (map (\<lambda>(f, w). if f = face then (f, new_weight) else (f, w)) d))"

definition show_state :: "'f die \<Rightarrow> 'f die" where
  "show_state d = d"

subsection \<open>Weighted sampling\<close>

text \<open>
  The state of numpy's global generator is a stream of uniform variates; drawing \<open>n\<close>
  of them advances the stream. \<^verbatim>\<open>random_sample\<close> returns values in \<open>[0, 1)\<close>.
\<close>

type_synonym rng = "nat \<Rightarrow> real"

definition random_sample :: "nat \<Rightarrow> rng \<Rightarrow> real list \<times> rng" where
  "random_sample n g = (map g [0..<n], \<lambda>k. g (k + n))"

fun cumsum_from :: "real \<Rightarrow> real list \<Rightarrow> real list" where
  "cumsum_from acc [] = []"
| "cumsum_from acc (x # xs) = (acc + x) # cumsum_from (acc + x) xs"

definition cumsum :: "real list \<Rightarrow> real list" where
  "cumsum p = cumsum_from 0 p"

text \<open>\<^verbatim>\<open>cdf.searchsorted(u, side='right')\<close> on an ascending array: the number of entries \<open>\<le> u\<close>.\<close>

definition searchsorted_right :: "real list \<Rightarrow> real \<Rightarrow> nat" where
  "searchsorted_right cdf u = length (takeWhile (\<lambda>c. c \<le> u) cdf)"

text \<open>\<^verbatim>\<open>a[idx]\<close> with an index array: an index out of bounds raises.\<close>

definition take_at :: "'f list \<Rightarrow> nat list \<Rightarrow> py_error + 'f list" where
  "take_at a idx =
     (if list_all (\<lambda>i. i < length a) idx then Inr (map (nth a) idx) else Inl IndexError)"

text \<open>
  \<^verbatim>\<open>numpy.random.choice(a, size=n, p=p)\<close>, with replacement: the checks on \<open>a\<close> and
  \<open>p\<close> (each a \<^verbatim>\<open>ValueError\<close>), then
  \<^verbatim>\<open>
  cdf = p.cumsum(); cdf /= cdf[-1]
  uniform_samples = self.random_sample(shape)
  idx = cdf.searchsorted(uniform_samples, side='right')
  return a[idx]
  \<close>
  The probabilities must sum to 1 within \<open>atol\<close>, the square root of the float64
  machine epsilon \<^verbatim>\<open>2**-52\<close>. A negative \<open>n\<close> is rejected when the samples are drawn.
\<close>

definition atol :: real where
  "atol = 1 / 2 ^ 26"

definition choice :: "'f list \<Rightarrow> int \<Rightarrow> real list \<Rightarrow> rng \<Rightarrow> py_error + ('f list \<times> rng)" where
  "choice a n p g =
     (if a = [] \<and> n \<noteq> 0 then Inl ValueError
      else if length p \<noteq> length a then Inl ValueError
      else if list_ex (\<lambda>x. x < 0) p then Inl ValueError
      else if atol < \<bar>sum_list p - 1\<bar> then Inl ValueError
      else if n < 0 then Inl ValueError
      else
        (let cdf = cumsum p;
             cdf = map (\<lambda>c. c / last cdf) cdf;
             (us, g') = random_sample (nat n) g
         in case take_at a (map (searchsorted_right cdf) us) of
              Inl e \<Rightarrow> Inl e
            | Inr vs \<Rightarrow> Inr (vs, g')))"

text \<open>
  \<^verbatim>\<open>
  outcomes = np.random.choice(self.die['face'], size=num_rolls,
                              p=self.die['weight'] / self.die['weight'].sum())
  \<close>
  When the weights sum to zero the quotients are NaN or infinite (or there are none),
  and \<^verbatim>\<open>choice\<close> rejects them with a \<^verbatim>\<open>ValueError\<close>; the reals have no such
  values, so that case is a branch of its own. When the sum is beyond the float64 range
  (it rounds to infinity from \<^verbatim>\<open>2**1024 - 2**970\<close> on) it is infinite and every quotient
  is zero.
\<close>

definition float_overflow :: "real \<Rightarrow> bool" where
  "float_overflow x = (2 ^ 1024 - 2 ^ 970 \<le> \<bar>x\<bar>)"

definition roll :: "'f die \<Rightarrow> int \<Rightarrow> rng \<Rightarrow> py_error + ('f list \<times> rng)" where
  "roll d num_rolls g =
     (let total = sum_list (weight_col d) in
      if total = 0 then Inl ValueError
      else if float_overflow total then
        choice (face_col d) num_rolls (map (\<lambda>w. 0) (weight_col d)) g
      else choice (face_col d) num_rolls (map (\<lambda>w. w / total) (weight_col d)) g)"

subsection \<open>Result tables and the object store\<close>

text \<open>
  The results table is a DataFrame: a (named) row index, column labels, and one array
  per column. DataFrames are mutable objects that several attributes may refer to, so
  they live in a store and are named by reference.
\<close>

record 'f frame =
  index_name :: "string option"
  index :: "nat list"
  columns :: "nat list"
  column_data :: "'f list list"

type_synonym ref = nat

type_synonym 'f store = "'f frame list"

definition alloc :: "'f frame \<Rightarrow> 'f store \<Rightarrow> ref \<times> 'f store" where
  "alloc t s = (length s, s @ [t])"

text \<open>
  \<^verbatim>\<open>pd.DataFrame(outcomes)\<close> for a dict \<open>{0: col0, 1: col1, ...}\<close> of arrays: the index
  is \<open>0..n-1\<close> for the common length \<open>n\<close>; arrays of different lengths are a
  \<^verbatim>\<open>ValueError\<close>; the empty dict gives the table with no rows and no columns.
\<close>

definition DataFrame :: "'f list list \<Rightarrow> py_error + 'f frame" where
  "DataFrame outcomes =
     (case outcomes of
        [] \<Rightarrow> Inr \<lparr>index_name = None, index = [], columns = [], column_data = []\<rparr>
      | c # cs \<Rightarrow>
          if list_all (\<lambda>c'. length c' = length c) cs
          then Inr \<lparr>index_name = None, index = [0..<length c],
                    columns = [0..<length outcomes], column_data = outcomes\<rparr>
          else Inl ValueError)"

definition rows :: "'f frame \<Rightarrow> 'f list list" where
  "rows t = map (\<lambda>i. map (\<lambda>c. c ! i) (column_data t)) [0..<length (index t)]"

subsection \<open>Game\<close>

text \<open>The private attribute \<^verbatim>\<open>_results\<close> is the field \<open>game_results\<close>: a reference, or \<^verbatim>\<open>None\<close>.\<close>

record 'f game =
  dice :: "'f die list"
  game_results :: "ref option"

text \<open>The \<^verbatim>\<open>isinstance\<close> checks of \<^verbatim>\<open>Game.__init__\<close> are the typing of \<open>dice\<close>.\<close>

definition Game_init :: "'f die list \<Rightarrow> 'f game" where
  "Game_init ds = \<lparr>dice = ds, game_results = None\<rparr>"

text \<open>
  \<^verbatim>\<open>
  outcomes = {}
  for i, die in enumerate(self.dice):
      outcomes[i] = die.roll(num_rolls)
  \<close>
\<close>

fun roll_dice :: "'f die list \<Rightarrow> int \<Rightarrow> rng \<Rightarrow> py_error + ('f list list \<times> rng)" where
  "roll_dice [] n g = Inr ([], g)"
| "roll_dice (d # ds) n g =
     (case roll d n g of
        Inl e \<Rightarrow> Inl e
      | Inr (col, g') \<Rightarrow>
          (case roll_dice ds n g' of
             Inl e \<Rightarrow> Inl e
           | Inr (cols, g'') \<Rightarrow> Inr (col # cols, g'')))"

text \<open>
  \<^verbatim>\<open>
  self._results = pd.DataFrame(outcomes)
  self._results.index.name = 'roll_number'
  \<close>
  An exception leaves the game and the store as they were.
\<close>

definition play :: "'f game \<Rightarrow> int \<Rightarrow> 'f store \<Rightarrow> rng \<Rightarrow> py_error + ('f game \<times> 'f store \<times> rng)" where
  "play gm num_rolls s g =
     (case roll_dice (dice gm) num_rolls g of
        Inl e \<Rightarrow> Inl e
      | Inr (outcomes, g') \<Rightarrow>
          (case DataFrame outcomes of
             Inl e \<Rightarrow> Inl e
           | Inr t \<Rightarrow>
               (let (r, s') = alloc t s;
                    gm' = gm\<lparr>game_results := Some r\<rparr>;
                    s'' = s'[r := (s' ! r)\<lparr>index_name := Some ''roll_number''\<rparr>]
                in Inr (gm', s'', g'))))"

text \<open>
  A long table: a (named) index and two columns, the first of former column labels and
  the second of values; \<open>long_columns\<close> holds the names of the two columns.
\<close>

record 'f long_frame =
  long_index_name :: "string option"
  long_index :: "nat list"
  long_columns :: "string list"
  var_col :: "nat list"
  value_col :: "'f list"

text \<open>
  \<^verbatim>\<open>melt(var_name=..., value_name=..., ignore_index=False)\<close>: column after column,
  the index repeated for each column (it keeps its name), the column label repeated for
  each row.
\<close>

definition melt :: "string \<Rightarrow> string \<Rightarrow> 'f frame \<Rightarrow> 'f long_frame" where
  "melt var_name value_name t =
     \<lparr>long_index_name = index_name t,
      long_index = concat (replicate (length (columns t)) (index t)),
      long_columns = [var_name, value_name],
      var_col = concat (map (replicate (length (index t))) (columns t)),
      value_col = concat (column_data t)\<rparr>"

datatype 'f shown = Wide ref | Narrow "'f long_frame"

text \<open>
  \<^verbatim>\<open>
  if self._results is None: raise ValueError(...)
  if form == 'wide': return self._results.copy()
  elif form == 'narrow':
      return self._results.melt(var_name='die_number', value_name='face_rolled',
                                ignore_index=False)
  else: raise ValueError(...)
  \<close>
  The copy is a new object in the store.
\<close>

definition show_results :: "'f game \<Rightarrow> string \<Rightarrow> 'f store \<Rightarrow> py_error + ('f shown \<times> 'f store)" where
  "show_results gm form s =
     (case game_results gm of
        None \<Rightarrow> Inl ValueError
      | Some r \<Rightarrow>
          if form = ''wide'' then (let (r', s') = alloc (s ! r) s in Inr (Wide r', s'))
          else if form = ''narrow'' then
            Inr (Narrow (melt ''die_number'' ''face_rolled'' (s ! r)), s)
          else Inl ValueError)"

subsection \<open>Analyzer\<close>

record 'f analyzer =
  game :: "'f game"
  results :: ref

text \<open>
  \<^verbatim>\<open>self.game = game; self.results = game.show_results()\<close>, the form being the
  default \<^verbatim>\<open>'wide'\<close>; the last case is never taken (\<open>show_results_wide\<close>).
\<close>

definition Analyzer_init :: "'f game \<Rightarrow> 'f store \<Rightarrow> py_error + ('f analyzer \<times> 'f store)" where
  "Analyzer_init gm s =
     (case show_results gm ''wide'' s of
        Inl e \<Rightarrow> Inl e
      | Inr (Wide r, s') \<Rightarrow> Inr (\<lparr>game = gm, results = r\<rparr>, s')
      | Inr (Narrow t, s') \<Rightarrow> Inl TypeError)"

text \<open>\<^verbatim>\<open>nunique(axis=1)\<close>: the number of distinct values of each row.\<close>

definition nunique_axis1 :: "'f frame \<Rightarrow> nat list" where
  "nunique_axis1 t = map (\<lambda>r. length (remdups r)) (rows t)"

text \<open>\<^verbatim>\<open>self.results[self.results.nunique(axis=1) == 1].shape[0]\<close>\<close>

definition jackpot :: "'f analyzer \<Rightarrow> 'f store \<Rightarrow> int" where
  "jackpot a s = int (length (filter (\<lambda>u. u = 1) (nunique_axis1 (s ! results a))))"

text \<open>
  \<^verbatim>\<open>Series.value_counts()\<close>: the distinct values in order of first occurrence, each
  with its number of occurrences, sorted by descending count (ties keep their order).
\<close>

definition unique :: "'a list \<Rightarrow> 'a list" where
  "unique xs = rev (remdups (rev xs))"

definition value_counts :: "'a list \<Rightarrow> ('a \<times> nat) list" where
  "value_counts xs =
     sort_key (\<lambda>p. - int (snd p)) (map (\<lambda>x. (x, count_list xs x)) (unique xs))"

text \<open>
  The index of a DataFrame built from Series: their common index when all are the
  same, the sorted union otherwise.
\<close>

definition union_indexes :: "('a::linorder) list list \<Rightarrow> 'a list" where
  "union_indexes ixs =
     (case ixs of
        [] \<Rightarrow> []
      | i # js \<Rightarrow> if list_all (\<lambda>j. j = i) js then i else sort (remdups (concat ixs)))"

text \<open>
  The table of counts: its columns are labelled by faces; when \<^verbatim>\<open>apply\<close> meets a
  table with an empty axis they are the columns of the results table (die positions).
\<close>

datatype 'f label = FaceLabel 'f | DieLabel nat

record ('f, 'c) counts_frame =
  counts_index :: "nat list"
  counts_columns :: "'f label list"
  counts_rows :: "'c list list"

text \<open>
  \<^verbatim>\<open>self.results.apply(lambda row: row.value_counts(), axis=1)\<close>. With an empty axis
  \<^verbatim>\<open>DataFrame.apply\<close> calls the function on an empty row, gets a Series back, and
  returns a copy of the table itself. Otherwise the Series of the rows are aligned on
  the union of their indexes, a face absent from a row being NaN there (\<open>None\<close>).
\<close>

definition apply_value_counts :: "('f::linorder) frame \<Rightarrow> ('f, nat option) counts_frame" where
  "apply_value_counts t =
     (if index t = [] \<or> columns t = [] then
        \<lparr>counts_index = index t, counts_columns = map DieLabel (columns t),
         counts_rows = map (\<lambda>i. []) (index t)\<rparr>
      else
        (let vcs = map value_counts (rows t);
             faces = union_indexes (map (map fst) vcs)
         in \<lparr>counts_index = index t, counts_columns = map FaceLabel faces,
             counts_rows = map (\<lambda>vc. map (map_of vc) faces) vcs\<rparr>))"

definition fillna0 :: "('f, nat option) counts_frame \<Rightarrow> ('f, nat) counts_frame" where
  "fillna0 t =
     \<lparr>counts_index = counts_index t, counts_columns = counts_columns t,
      counts_rows = map (map (\<lambda>c. case c of None \<Rightarrow> 0 | Some m \<Rightarrow> m)) (counts_rows t)\<rparr>"

definition astype_int :: "('f, nat) counts_frame \<Rightarrow> ('f, int) counts_frame" where
  "astype_int t =
     \<lparr>counts_index = counts_index t, counts_columns = counts_columns t,
      counts_rows = map (map int) (counts_rows t)\<rparr>"

text \<open>\<^verbatim>\<open>self.results.apply(lambda row: row.value_counts(), axis=1).fillna(0).astype(int)\<close>\<close>

definition face_counts_per_roll :: "('f::linorder) analyzer \<Rightarrow> 'f store \<Rightarrow> ('f, int) counts_frame" where
  "face_counts_per_roll a s = astype_int (fillna0 (apply_value_counts (s ! results a)))"

text \<open>
  \<^verbatim>\<open>self.results.apply(lambda row: tuple(sorted(row)), axis=1)\<close>: the Series of the
  sorted rows; with an empty axis the function's result on an empty row is not a
  Series, and \<^verbatim>\<open>apply\<close> returns an empty Series. (\<^verbatim>\<open>play\<close> never stores a table
  with rows and no columns.)
\<close>

definition apply_sorted :: "('f::linorder) frame \<Rightarrow> 'f list list" where
  "apply_sorted t = (if index t = [] \<or> columns t = [] then [] else map sort (rows t))"

text \<open>
  \<^verbatim>\<open>combos.value_counts().reset_index(name='count').rename(columns={'index': 'combination'})\<close>:
  the rows \<open>(combination, count)\<close>.
\<close>

definition combo :: "('f::linorder) analyzer \<Rightarrow> 'f store \<Rightarrow> ('f list \<times> int) list" where
  "combo a s = map (\<lambda>(c, m). (c, int m)) (value_counts (apply_sorted (s ! results a)))"

text \<open>\<^verbatim>\<open>self.results.apply(lambda row: row.value_counts(), axis=1).fillna(0).astype(int)\<close>\<close>

definition permutation_count :: "('f::linorder) analyzer \<Rightarrow> 'f store \<Rightarrow> ('f, int) counts_frame" where
  "permutation_count a s = astype_int (fillna0 (apply_value_counts (s ! results a)))"

subsection \<open>Regrouping the long table\<close>

text \<open>The rows \<open>(index, label, value)\<close> of a long table.\<close>

definition long_rows :: "'f long_frame \<Rightarrow> (nat \<times> nat \<times> 'f) list" where
  "long_rows lt = zip (long_index lt) (zip (var_col lt) (value_col lt))"

text \<open>
  The spec's round trip, following its words: regrouping the rows of the long table by
  \<open>(roll_number, die_number)\<close> gives a wide table again. The roll numbers and the die
  numbers are those found in the long table, in ascending order; the cell of a roll and
  a die is the face of the row with that pair (\<open>None\<close> when there is no such row).
\<close>

definition regroup :: "'f long_frame \<Rightarrow> 'f option frame" where
  "regroup lt =
     (let idx = sort (remdups (long_index lt));
          cols = sort (remdups (var_col lt));
          cell = map_of (map (\<lambda>(i, j, f). ((i, j), f)) (long_rows lt))
      in \<lparr>index_name = long_index_name lt, index = idx, columns = cols,
          column_data = map (\<lambda>j. map (\<lambda>i. cell (i, j)) idx) cols\<rparr>)"

text \<open>The wide table that a regrouping has to give: every cell present.\<close>

definition some_cells :: "'f frame \<Rightarrow> 'f option frame" where
  "some_cells t =
     \<lparr>index_name = index_name t, index = index t, columns = columns t,
      column_data = map (map Some) (column_data t)\<rparr>"

subsection \<open>Example objects\<close>

text \<open>A generator that always returns the variate 0.\<close>

definition rng0 :: rng where
  "rng0 = (\<lambda>k. 0)"

definition die12 :: "int die" where
  "die12 = [(1, 1), (2, 1)]"

definition table2 :: "int frame" where
  "table2 = \<lparr>index_name = Some ''roll_number'', index = [0], columns = [0], column_data = [[2]]\<rparr>"

definition table11 :: "int frame" where
  "table11 = \<lparr>index_name = Some ''roll_number'', index = [0, 1], columns = [0], column_data = [[1, 1]]\<rparr>"

definition empty_table :: "int frame" where
  "empty_table = \<lparr>index_name = Some ''roll_number'', index = [], columns = [], column_data = []\<rparr>"

definition die56 :: "int die" where
  "die56 = [(5, 1), (6, 1)]"

definition table1155 :: "int frame" where
  "table1155 = \<lparr>index_name = Some ''roll_number'', index = [0, 1], columns = [0, 1],
                 column_data = [[1, 1], [5, 5]]\<rparr>"

definition long1155 :: "int long_frame" where
  "long1155 = \<lparr>long_index_name = Some ''roll_number'', long_index = [0, 1, 0, 1],
                long_columns = [''die_number'', ''face_rolled''],
                var_col = [0, 0, 1, 1], value_col = [1, 1, 5, 5]\<rparr>"

text \<open>Two dice and no rolls: the wide table and its long form.\<close>

definition table0x2 :: "int frame" where
  "table0x2 = \<lparr>index_name = Some ''roll_number'', index = [], columns = [0, 1],
                column_data = [[], []]\<rparr>"

definition long_empty :: "int long_frame" where
  "long_empty = \<lparr>long_index_name = Some ''roll_number'', long_index = [],
                  long_columns = [''die_number'', ''face_rolled''],
                  var_col = [], value_col = []\<rparr>"


text \<open>A generator whose second variate is 1/2, all others 0.\<close>

definition rng1 :: rng where
  "rng1 = (\<lambda>k. if k = 1 then 1 / 2 else 0)"

definition table1211 :: "int frame" where
  "table1211 = \<lparr>index_name = Some ''roll_number'', index = [0, 1], columns = [0, 1],
                 column_data = [[1, 2], [1, 1]]\<rparr>"

definition table_norolls :: "int frame" where
  "table_norolls = \<lparr>index_name = Some ''roll_number'', index = [], columns = [0],
                     column_data = [[]]\<rparr>"

definition game1211 :: "int game" where
  "game1211 = \<lparr>dice = [die12, die12], game_results = Some 0\<rparr>"

definition analyzer1211 :: "int analyzer" where
  "analyzer1211 = \<lparr>game = game1211, results = 1\<rparr>"

section \<open>Properties\<close>

lemmas eval_defs = play_def roll_def choice_def weight_col_def face_col_def cumsum_def
  random_sample_def take_at_def searchsorted_right_def DataFrame_def alloc_def Let_def
  atol_def float_overflow_def
  show_results_def Analyzer_init_def Game_init_def rng0_def die12_def table2_def table11_def
  upt_rec

subsection \<open>Die construction and weights\<close>

lemma Die_init_not_collection: "Die_init NotListOrArray = Inl TypeError"
  by (simp add: Die_init_def seq_of_def)

lemma Die_init_weights:
  "seq_of arg = Some fs \<Longrightarrow> Die_init arg = Inr (map (\<lambda>f. (f, 1)) fs)"
  by (simp add: Die_init_def)

text \<open>
  C6. Die construction fails when the argument is not a collection or the faces are not
  pairwise distinct, and otherwise gives every face the weight 1.0. The constructor has
  no check of distinctness (its docstring promises a \<^verbatim>\<open>ValueError\<close>): the list
  \<open>[1, 1]\<close> is accepted and gives a die with the face 1 twice.
\<close>

theorem Die_init_duplicate_faces:
  "Die_init (PyList [1::int, 1]) = Inr [(1, 1), (1, 1)]"
  by (simp add: Die_init_def seq_of_def)

lemma change_weight_absent:
  "face \<notin> set (face_col d) \<Longrightarrow> change_weight face w d = Inl ValueError"
  by (simp add: change_weight_def)

lemma change_weight_Inr:
  assumes "change_weight face w d = Inr d'"
  shows "face \<in> set (face_col d) \<and> face_col d' = face_col d \<and>
         weight_col d' = map (\<lambda>(f, x). if f = face then w else x) d"
  using assms
  by (auto simp: change_weight_def face_col_def weight_col_def split: if_splits)

text \<open>
  C7. SetWeight fails for an absent face and for a weight that is not a finite real
  \<open>\<ge> 0\<close>, leaving the weights unchanged, and otherwise changes only the named face's
  weight. \<^verbatim>\<open>change_weight\<close> has no check of the weight (its docstring asks for a
  numeric, non-negative value and promises a \<^verbatim>\<open>TypeError\<close>): the weight \<open>-1\<close> is
  stored.
\<close>

theorem change_weight_negative:
  "change_weight (1::int) (- 1) [(1, 1), (2, 1), (3, 1)] = Inr [(1, - 1), (2, 1), (3, 1)]"
  by (simp add: change_weight_def face_col_def)

subsection \<open>Rolling a die\<close>

lemma take_at_Inr: "take_at a idx = Inr vs \<Longrightarrow> length vs = length idx \<and> set vs \<subseteq> set a"
  by (auto simp: take_at_def list_all_iff split: if_splits)

lemma choice_Inr:
  assumes "choice a n p g = Inr (vs, g')"
  shows "0 \<le> n \<and> length vs = nat n \<and> set vs \<subseteq> set a \<and> g' = (\<lambda>k. g (k + nat n))"
  using assms
  by (auto simp: choice_def Let_def random_sample_def split: if_splits sum.splits dest!: take_at_Inr)

lemma roll_Inr:
  assumes "roll d n g = Inr (vs, g')"
  shows "0 \<le> n \<and> length vs = nat n \<and> set vs \<subseteq> set (face_col d) \<and> g' = (\<lambda>k. g (k + nat n))"
  using assms by (auto simp: roll_def Let_def split: if_splits dest!: choice_Inr)







subsection \<open>Playing a game\<close>

lemma roll_dice_Inr:
  "roll_dice ds n g = Inr (cols, g') \<Longrightarrow>
     list_all2 (\<lambda>d c. length c = nat n \<and> set c \<subseteq> set (face_col d)) ds cols"
proof (induction ds arbitrary: g cols)
  case Nil
  then show ?case by simp
next
  case (Cons d ds)
  from Cons.prems obtain col g1 cols' where
    r: "roll d n g = Inr (col, g1)" and rs: "roll_dice ds n g1 = Inr (cols', g')" and c: "cols = col # cols'"
    by (auto split: sum.splits)
  from roll_Inr [OF r] Cons.IH [OF rs] c show ?case by simp
qed

lemma roll_dice_nonneg:
  "roll_dice ds n g = Inr (cols, g') \<Longrightarrow> ds \<noteq> [] \<Longrightarrow> 0 \<le> n"
  by (cases ds) (auto split: sum.splits dest: roll_Inr)

lemma DataFrame_columns:
  assumes "list_all2 (\<lambda>d c. length c = m \<and> Q d c) ds cols"
  shows "DataFrame cols =
           Inr \<lparr>index_name = None, index = (if ds = [] then [] else [0..<m]),
                columns = [0..<length ds], column_data = cols\<rparr>"
proof -
  have all: "\<forall>c\<in>set cols. length c = m"
    using assms by (auto simp: list_all2_conv_all_nth in_set_conv_nth)
  have len: "length ds = length cols"
    using assms by (rule list_all2_lengthD)
  show ?thesis
  proof (cases cols)
    case Nil
    with len show ?thesis by (simp add: DataFrame_def)
  next
    case (Cons c cs)
    with all len have "length c = m" "list_all (\<lambda>c'. length c' = m) cs" "ds \<noteq> []"
      by (auto simp: list_all_iff)
    with Cons len show ?thesis by (simp add: DataFrame_def)
  qed
qed

lemma play_Inr:
  assumes "play gm n s g = Inr (gm', s', g')"
  shows "\<exists>cols. list_all2 (\<lambda>d c. length c = nat n \<and> set c \<subseteq> set (face_col d)) (dice gm) cols \<and>
           gm' = gm\<lparr>game_results := Some (length s)\<rparr> \<and>
           s' = s @ [\<lparr>index_name = Some ''roll_number'',
                      index = (if dice gm = [] then [] else [0..<nat n]),
                      columns = [0..<length (dice gm)], column_data = cols\<rparr>]"
proof -
  from assms obtain cols g1 where rd: "roll_dice (dice gm) n g = Inr (cols, g1)"
    by (auto simp: play_def split: sum.splits)
  note la = roll_dice_Inr [OF rd]
  note df = DataFrame_columns [OF la]
  from assms rd df show ?thesis
    using la by (auto simp: play_def alloc_def Let_def)
qed

lemma show_results_wide:
  "show_results gm ''wide'' s = Inr (v, s') \<Longrightarrow>
     \<exists>r. game_results gm = Some r \<and> v = Wide (length s) \<and> s' = s @ [s ! r]"
  by (auto simp: show_results_def alloc_def split: option.splits)

lemma Analyzer_init_Inr:
  "Analyzer_init gm s = Inr (a, s') \<Longrightarrow>
     \<exists>r. game_results gm = Some r \<and> a = \<lparr>game = gm, results = length s\<rparr> \<and> s' = s @ [s ! r]"
  by (auto simp: Analyzer_init_def split: sum.splits shown.splits dest!: show_results_wide)

lemma play_eq:
  "play gm n s g =
     (case roll_dice (dice gm) n g of
        Inl e \<Rightarrow> Inl e
      | Inr (cols, g') \<Rightarrow>
          Inr (gm\<lparr>game_results := Some (length s)\<rparr>,
               s @ [\<lparr>index_name = Some ''roll_number'',
                     index = (if dice gm = [] then [] else [0..<nat n]),
                     columns = [0..<length (dice gm)], column_data = cols\<rparr>],
               g'))"
proof (cases "roll_dice (dice gm) n g")
  case (Inl e)
  then show ?thesis by (simp add: play_def)
next
  case (Inr b)
  then obtain cols g' where rd: "roll_dice (dice gm) n g = Inr (cols, g')" by (cases b) auto
  from DataFrame_columns [OF roll_dice_Inr [OF rd]] rd show ?thesis
    by (simp add: play_def alloc_def Let_def)
qed

lemma show_results_wide_eq:
  "game_results gm = Some r \<Longrightarrow>
     show_results gm ''wide'' s = Inr (Wide (length s), s @ [s ! r])"
  by (simp add: show_results_def alloc_def)

lemma show_results_narrow_eq:
  "game_results gm = Some r \<Longrightarrow>
     show_results gm ''narrow'' s = Inr (Narrow (melt ''die_number'' ''face_rolled'' (s ! r)), s)"
  by (simp add: show_results_def)

lemma play_then_wide:
  assumes "play gm n s g = Inr (gm', s', g')"
  shows "\<exists>cols. roll_dice (dice gm) n g = Inr (cols, g') \<and>
           show_results gm' ''wide'' s' = Inr (Wide (length s'), s' @ [s' ! length s]) \<and>
           (s' @ [s' ! length s]) ! length s' = s' ! length s \<and>
           game_results gm' = Some (length s) \<and>
           s' ! length s =
             \<lparr>index_name = Some ''roll_number'',
              index = (if dice gm = [] then [] else [0..<nat n]),
              columns = [0..<length (dice gm)], column_data = cols\<rparr>"
  using assms
  by (auto simp: play_eq show_results_wide_eq split: sum.splits)

text \<open>
  C4, as amended. Whenever \<^verbatim>\<open>play(n)\<close> returns, \<^verbatim>\<open>show_results('wide')\<close> then
  gives a table with one column per die, every cell of column \<open>j\<close> a face of the
  \<open>j\<close>-th die, and exactly \<open>n\<close> rows when the game has at least one die (no rows when
  it has none); the table is the same whatever results and store the game had before,
  so nothing of an earlier play is kept.
\<close>

theorem play_show_results_wide:
  assumes "play gm n s g = Inr (gm', s', g')"
  shows "\<exists>r s''. show_results gm' ''wide'' s' = Inr (Wide r, s'') \<and>
           index (s'' ! r) = (if dice gm = [] then [] else [0..<nat n]) \<and>
           (dice gm \<noteq> [] \<longrightarrow> 0 \<le> n) \<and>
           columns (s'' ! r) = [0..<length (dice gm)] \<and>
           list_all2 (\<lambda>d c. length c = nat n \<and> set c \<subseteq> set (face_col d))
             (dice gm) (column_data (s'' ! r)) \<and>
           (\<forall>old s0 gm0' s0' g0' r0 s0''.
              play (gm\<lparr>game_results := old\<rparr>) n s0 g = Inr (gm0', s0', g0') \<longrightarrow>
              show_results gm0' ''wide'' s0' = Inr (Wide r0, s0'') \<longrightarrow>
              s0'' ! r0 = s'' ! r)"
proof -
  note p = assms
  from play_then_wide [OF p] obtain cols where
    rd: "roll_dice (dice gm) n g = Inr (cols, g')"
    and sh: "show_results gm' ''wide'' s' = Inr (Wide (length s'), s' @ [s' ! length s])"
    and nth: "(s' @ [s' ! length s]) ! length s' = s' ! length s"
    and t: "s' ! length s =
             \<lparr>index_name = Some ''roll_number'',
              index = (if dice gm = [] then [] else [0..<nat n]),
              columns = [0..<length (dice gm)], column_data = cols\<rparr>"
    by blast
  have indep: "s0'' ! r0 = s' ! length s"
    if p0: "play (gm\<lparr>game_results := old\<rparr>) n s0 g = Inr (gm0', s0', g0')"
      and sh0: "show_results gm0' ''wide'' s0' = Inr (Wide r0, s0'')"
    for old s0 gm0' s0' g0' r0 s0''
  proof -
    from play_then_wide [OF p0] rd t sh0 show ?thesis by auto
  qed
  have nn: "dice gm \<noteq> [] \<longrightarrow> 0 \<le> n"
    using roll_dice_nonneg [OF rd] by blast
  show ?thesis
    apply (rule exI [of _ "length s'"])
    apply (rule exI [of _ "s' @ [s' ! length s]"])
    using sh nth t roll_dice_Inr [OF rd] indep nn by (simp del: nth_append_length)
qed

theorem play_show_results_wide_witness:
  "play (Game_init [die12]) 2 [] rng0
     = Inr (\<lparr>dice = [die12], game_results = Some 0\<rparr>, [table11], rng0) \<and>
   show_results \<lparr>dice = [die12], game_results = Some 0\<rparr> ''wide'' [table11]
     = Inr (Wide 1, [table11, table11]) \<and>
   index ([table11, table11] ! 1) = [0..<nat 2] \<and>
   columns ([table11, table11] ! 1) = [0..<length [die12]] \<and>
   list_all2 (\<lambda>d c. length c = nat 2 \<and> set c \<subseteq> set (face_col d))
     [die12] (column_data ([table11, table11] ! 1)) \<and>
   play (Game_init [die12]\<lparr>game_results := Some 0\<rparr>) 2 [table2] rng0
     = Inr (\<lparr>dice = [die12], game_results = Some 1\<rparr>, [table2, table11], rng0) \<and>
   show_results \<lparr>dice = [die12], game_results = Some 1\<rparr> ''wide'' [table2, table11]
     = Inr (Wide 2, [table2, table11, table11]) \<and>
   [table2, table11, table11] ! 2 = [table11, table11] ! 1"
  (is ?W)
proof -
  have e: ?W by (simp add: eval_defs)
  then have p: "play (Game_init [die12]) 2 [] rng0
     = Inr (\<lparr>dice = [die12], game_results = Some 0\<rparr>, [table11], rng0)" by blast
  from play_show_results_wide [OF p] e
  show ?thesis by simp
qed

text \<open>
  The claim as stated fails for a game without dice: \<^verbatim>\<open>pd.DataFrame({})\<close> has no
  rows, so after \<^verbatim>\<open>play(3)\<close> the table has 0 rows, not 3.
\<close>

theorem play_no_dice_counterexample:
  "play (Game_init []) 3 [] rng0
     = Inr (\<lparr>dice = [], game_results = Some 0\<rparr>, [empty_table], rng0) \<and>
   show_results \<lparr>dice = [], game_results = Some 0\<rparr> ''wide'' [empty_table]
     = Inr (Wide 1, [empty_table, empty_table]) \<and>
   length (index ([empty_table, empty_table] ! 1)) \<noteq> nat 3"
  by (simp add: eval_defs empty_table_def)

subsection \<open>The narrow form\<close>

lemma melt_blocks:
  assumes "length ls = length cols" and "\<forall>c\<in>set cols. length c = length idx"
  shows "zip (concat (replicate (length ls) idx))
             (zip (concat (map (replicate (length idx)) ls)) (concat cols))
         = concat (map (\<lambda>(l, c). zip idx (zip (replicate (length idx) l) c)) (zip ls cols))"
  using assms by (induction ls cols rule: list_induct2) simp_all

lemma block_rows:
  "length c = m \<Longrightarrow> zip [0..<m] (zip (replicate m l) c) = map (\<lambda>i. (i, l, c ! i)) [0..<m]"
  by (rule nth_equalityI) simp_all

lemma long_rows_melt:
  assumes "index t = [0..<m]" "columns t = [0..<k]" "length (column_data t) = k"
    and "\<forall>c\<in>set (column_data t). length c = m"
  shows "long_rows (melt v w t) =
           concat (map (\<lambda>j. map (\<lambda>i. (i, j, column_data t ! j ! i)) [0..<m]) [0..<k])"
proof -
  have "long_rows (melt v w t) =
      concat (map (\<lambda>(l, c). zip [0..<m] (zip (replicate m l) c)) (zip [0..<k] (column_data t)))"
    using melt_blocks [of "[0..<k]" "column_data t" "[0..<m]"] assms
    by (simp add: long_rows_def melt_def)
  also have "\<dots> = concat (map (\<lambda>(l, c). map (\<lambda>i. (i, l, c ! i)) [0..<m]) (zip [0..<k] (column_data t)))"
    using assms(4) by (intro arg_cong [where f = concat] map_cong refl) (auto simp: block_rows dest: set_zip_rightD)
  also have "zip [0..<k] (column_data t) = map (\<lambda>j. (j, column_data t ! j)) [0..<k]"
    using assms(3) by (intro nth_equalityI) simp_all
  finally show ?thesis by (simp add: comp_def)
qed

lemma distinct_keys:
  "distinct js \<Longrightarrow> distinct (concat (map (\<lambda>j. map (\<lambda>i. (i, j)) [0..<m]) (js::nat list)))"
  by (induction js) (auto simp: distinct_map inj_on_def)

lemma sum_list_lengths:
  "\<forall>c\<in>set cs. length c = m \<Longrightarrow> sum_list (map length cs) = m * length cs"
  by (induction cs) simp_all

lemma keys_of_rows:
  "map (\<lambda>(i, j, f). (i, j)) (concat (map (\<lambda>j. map (\<lambda>i. (i, j, h j i)) is) js))
     = concat (map (\<lambda>j. map (\<lambda>i. (i, j)) is) js)"
  by (simp add: map_concat comp_def)

lemma set_rows:
  "set (concat (map (\<lambda>j. map (\<lambda>i. (i, j, h j i)) [0..<m]) [0..<k]))
     = {(i, j, h j i) | i j. i < m \<and> j < k}"
  by auto

lemma melt_lengths:
  assumes "length (columns t) = length (column_data t)"
    and "\<forall>c\<in>set (column_data t). length c = length (index t)"
  shows "length (long_index (melt v w t)) = length (index t) * length (columns t)"
    and "length (var_col (melt v w t)) = length (index t) * length (columns t)"
    and "length (value_col (melt v w t)) = length (index t) * length (columns t)"
proof -
  show "length (long_index (melt v w t)) = length (index t) * length (columns t)"
    by (simp add: melt_def length_concat sum_list_replicate)
  show "length (var_col (melt v w t)) = length (index t) * length (columns t)"
    by (simp add: melt_def length_concat comp_def sum_list_triv)
  have "sum_list (map length (column_data t)) = length (index t) * length (column_data t)"
    using assms(2) by (rule sum_list_lengths)
  then show "length (value_col (melt v w t)) = length (index t) * length (columns t)"
    using assms(1) by (simp add: melt_def length_concat)
qed

lemma sort_remdups_upt: "set xs = {0..<m} \<Longrightarrow> sort (remdups xs) = [0..<m]"
  by (metis sorted_list_of_set_range sorted_list_of_set_sort_remdups)

lemma regroup_melt:
  assumes "index t = [0..<m]" "columns t = [0..<k]" "length (column_data t) = k"
    and "\<forall>c\<in>set (column_data t). length c = m" and "m = 0 \<longleftrightarrow> k = 0"
  shows "regroup (melt v w t) = some_cells t"
proof -
  let ?rows = "concat (map (\<lambda>j. map (\<lambda>i. (i, j, column_data t ! j ! i)) [0..<m]) [0..<k])"
  let ?keyed = "map (\<lambda>(i, j, f). ((i, j), f)) ?rows"
  have lr: "long_rows (melt v w t) = ?rows" using assms(1-4) by (rule long_rows_melt)
  have "set (long_index (melt v w t)) = {0..<m}"
    using assms(1,2,5) by (auto simp: melt_def)
  then have idx: "sort (remdups (long_index (melt v w t))) = index t"
    unfolding assms(1) by (rule sort_remdups_upt)
  have "set (var_col (melt v w t)) = {0..<k}"
    using assms(1,2,5) by (auto simp: melt_def)
  then have cols: "sort (remdups (var_col (melt v w t))) = columns t"
    unfolding assms(2) by (rule sort_remdups_upt)
  have "map fst ?keyed = map (\<lambda>(i, j, f). (i, j)) ?rows"
    by (simp add: comp_def case_prod_unfold)
  then have dk: "distinct (map fst ?keyed)"
    by (simp only: keys_of_rows distinct_keys distinct_upt)
  have look: "map_of ?keyed (i, j) = Some (column_data t ! j ! i)" if "i < m" "j < k" for i j
  proof -
    have "(i, j, column_data t ! j ! i) \<in> set ?rows"
      unfolding set_rows using that by blast
    then have "((i, j), column_data t ! j ! i) \<in> set ?keyed" by force
    with dk show ?thesis by (rule map_of_is_SomeI)
  qed
  have "map (\<lambda>j. map (\<lambda>i. map_of ?keyed (i, j)) [0..<m]) [0..<k]
      = map (\<lambda>j. map (\<lambda>i. Some (column_data t ! j ! i)) [0..<m]) [0..<k]"
    using look by simp
  also have "\<dots> = map (map Some) (column_data t)"
  proof (rule nth_equalityI)
    show "length (map (\<lambda>j. map (\<lambda>i. Some (column_data t ! j ! i)) [0..<m]) [0..<k])
        = length (map (map Some) (column_data t))" using assms(3) by simp
  next
    fix j assume "j < length (map (\<lambda>j. map (\<lambda>i. Some (column_data t ! j ! i)) [0..<m]) [0..<k])"
    then have j: "j < k" by simp
    with assms(3,4) have "length (column_data t ! j) = m" by simp
    then have "map (\<lambda>i. Some (column_data t ! j ! i)) [0..<m] = map Some (column_data t ! j)"
      by (intro nth_equalityI) simp_all
    with j assms(3) show "map (\<lambda>j. map (\<lambda>i. Some (column_data t ! j ! i)) [0..<m]) [0..<k] ! j
        = map (map Some) (column_data t) ! j" by simp
  qed
  finally have data: "map (\<lambda>j. map (\<lambda>i. map_of ?keyed (i, j)) [0..<m]) [0..<k]
      = map (map Some) (column_data t)" .
  have name: "long_index_name (melt v w t) = index_name t" by (simp add: melt_def)
  show ?thesis
    unfolding regroup_def Let_def idx cols lr name some_cells_def
    using data assms(1,2) by simp
qed

text \<open>
  C5, as amended. After \<^verbatim>\<open>play(n)\<close>, \<^verbatim>\<open>show_results('narrow')\<close> returns a long
  table of exactly \<open>n \<times> len(dice)\<close> rows, indexed by \<^verbatim>\<open>roll_number\<close> and with the
  two columns \<^verbatim>\<open>die_number\<close> and \<^verbatim>\<open>face_rolled\<close>; its rows are the cells of the wide
  table, each \<open>(roll, die)\<close> pair once. When \<open>n \<ge> 1\<close>, or the game has no dice,
  regrouping the rows by \<open>(roll_number, die_number)\<close> reconstructs the wide table: its
  index and index name, its columns and all its cells.
\<close>

theorem narrow_round_trip:
  assumes "play gm n s g = Inr (gm', s', g')"
  shows "\<exists>lt r s''.
     show_results gm' ''narrow'' s' = Inr (Narrow lt, s') \<and>
     show_results gm' ''wide'' s' = Inr (Wide r, s'') \<and>
     long_index_name lt = Some ''roll_number'' \<and>
     long_columns lt = [''die_number'', ''face_rolled''] \<and>
     length (long_index lt) = nat n * length (dice gm) \<and>
     length (var_col lt) = nat n * length (dice gm) \<and>
     length (value_col lt) = nat n * length (dice gm) \<and>
     distinct (map (\<lambda>(i, j, f). (i, j)) (long_rows lt)) \<and>
     set (long_rows lt) =
       {(i, j, column_data (s'' ! r) ! j ! i) | i j.
          i < length (index (s'' ! r)) \<and> j < length (columns (s'' ! r))} \<and>
     (0 < n \<or> dice gm = [] \<longrightarrow> regroup lt = some_cells (s'' ! r))"
proof -
  let ?m = "if dice gm = [] then 0 else nat n"
  let ?k = "length (dice gm)"
  from play_then_wide [OF assms] obtain cols where
    rd: "roll_dice (dice gm) n g = Inr (cols, g')"
    and sh: "show_results gm' ''wide'' s' = Inr (Wide (length s'), s' @ [s' ! length s])"
    and nth: "(s' @ [s' ! length s]) ! length s' = s' ! length s"
    and gr: "game_results gm' = Some (length s)"
    and t: "s' ! length s =
             \<lparr>index_name = Some ''roll_number'',
              index = (if dice gm = [] then [] else [0..<nat n]),
              columns = [0..<length (dice gm)], column_data = cols\<rparr>"
    by blast
  let ?t = "s' ! length s"
  let ?lt = "melt ''die_number'' ''face_rolled'' ?t"
  note la = roll_dice_Inr [OF rd]
  have len: "length cols = ?k" using la by (simp add: list_all2_lengthD)
  have all: "\<forall>c\<in>set cols. length c = ?m"
    using la by (auto simp: list_all2_conv_all_nth in_set_conv_nth)
  have i: "index ?t = [0..<?m]" and c: "columns ?t = [0..<?k]"
    and d: "length (column_data ?t) = ?k" and a: "\<forall>c\<in>set (column_data ?t). length c = ?m"
    using t len all by simp_all
  have mk: "?m * ?k = nat n * ?k" by simp
  have li: "length (index ?t) = ?m" and lc: "length (columns ?t) = ?k"
    using i c by simp_all
  have a': "\<forall>c\<in>set (column_data ?t). length c = length (index ?t)"
    using a li by simp
  have lcd: "length (columns ?t) = length (column_data ?t)" using lc d by simp
  note ml = melt_lengths [OF lcd a', of "''die_number''" "''face_rolled''"]
  note lr = long_rows_melt [OF i c d a, of "''die_number''" "''face_rolled''"]
  have nar: "show_results gm' ''narrow'' s' = Inr (Narrow ?lt, s')"
    using gr by (rule show_results_narrow_eq)
  have name: "long_index_name ?lt = Some ''roll_number''"
    using t by (simp add: melt_def)
  have cn: "long_columns ?lt = [''die_number'', ''face_rolled'']"
    by (simp add: melt_def)
  have dist: "distinct (map (\<lambda>(i, j, f). (i, j)) (long_rows ?lt))"
    unfolding lr by (simp only: keys_of_rows distinct_keys distinct_upt)
  have st: "set (long_rows ?lt) =
       {(i, j, column_data ?t ! j ! i) | i j. i < length (index ?t) \<and> j < length (columns ?t)}"
    unfolding lr set_rows li lc ..
  have rg: "0 < n \<or> dice gm = [] \<longrightarrow> regroup ?lt = some_cells ?t"
  proof
    assume "0 < n \<or> dice gm = []"
    then have "?m = 0 \<longleftrightarrow> ?k = 0" by auto
    with i c d a show "regroup ?lt = some_cells ?t" by (rule regroup_melt)
  qed
  show ?thesis
    apply (rule exI [of _ ?lt])
    apply (rule exI [of _ "length s'"])
    apply (rule exI [of _ "s' @ [s' ! length s]"])
    unfolding nth
    using nar sh name cn ml dist st rg li lc mk by (simp only: True_implies_equals simp_thms)
qed

theorem narrow_round_trip_witness:
  "play (Game_init [die12, die56]) 2 [] rng0
     = Inr (\<lparr>dice = [die12, die56], game_results = Some 0\<rparr>, [table1155], rng0) \<and>
   show_results \<lparr>dice = [die12, die56], game_results = Some 0\<rparr> ''narrow'' [table1155]
     = Inr (Narrow long1155, [table1155]) \<and>
   show_results \<lparr>dice = [die12, die56], game_results = Some 0\<rparr> ''wide'' [table1155]
     = Inr (Wide 1, [table1155, table1155]) \<and>
   length (long_index long1155) = nat 2 * length (dice (Game_init [die12, die56])) \<and>
   long_rows long1155 = [(0, 0, 1), (1, 0, 1), (0, 1, 5), (1, 1, 5)] \<and>
   (0::int) < 2 \<and>
   regroup long1155 = some_cells ([table1155, table1155] ! 1)"
  (is ?W)
proof -
  have e: ?W
    by (simp add: eval_defs die56_def table1155_def long1155_def melt_def long_rows_def
        regroup_def some_cells_def)
  have p: "play (Game_init [die12, die56]) 2 [] rng0
     = Inr (\<lparr>dice = [die12, die56], game_results = Some 0\<rparr>, [table1155], rng0)"
    using e by blast
  from narrow_round_trip [OF p] e show ?thesis by blast
qed

text \<open>
  The claim as stated fails after \<^verbatim>\<open>play(0)\<close> with two dice: the wide table has no
  rows and the columns 0 and 1, its long form has no rows at all and is the long form of
  the table without columns as well, and regrouping gives a table without columns.
\<close>

theorem narrow_no_rolls_counterexample:
  "play (Game_init [die12, die56]) 0 [] rng0
     = Inr (\<lparr>dice = [die12, die56], game_results = Some 0\<rparr>, [table0x2], rng0) \<and>
   show_results \<lparr>dice = [die12, die56], game_results = Some 0\<rparr> ''narrow'' [table0x2]
     = Inr (Narrow long_empty, [table0x2]) \<and>
   show_results \<lparr>dice = [die12, die56], game_results = Some 0\<rparr> ''wide'' [table0x2]
     = Inr (Wide 1, [table0x2, table0x2]) \<and>
   melt ''die_number'' ''face_rolled'' empty_table = long_empty \<and>
   table0x2 \<noteq> empty_table \<and>
   columns (regroup long_empty) = [] \<and>
   columns (some_cells ([table0x2, table0x2] ! 1)) = [0, 1] \<and>
   regroup long_empty \<noteq> some_cells ([table0x2, table0x2] ! 1)"
proof -
  have c: "columns (regroup long_empty) = []"
    by (simp add: regroup_def long_empty_def)
  have d: "columns (some_cells ([table0x2, table0x2] ! 1)) = [0, 1]"
    by (simp add: some_cells_def table0x2_def)
  from c d have "regroup long_empty \<noteq> some_cells ([table0x2, table0x2] ! 1)"
    by (metis list.distinct(1))
  with c d show ?thesis
    by (simp add: eval_defs die56_def table0x2_def long_empty_def empty_table_def melt_def)
qed

subsection \<open>The analyzer's snapshot\<close>

text \<open>
  C9. The table of an analyzer is a snapshot: after a later \<^verbatim>\<open>play\<close> of the same
  game the analyzer's reference still holds the table it held before (the game refers
  to another one), so \<^verbatim>\<open>jackpot\<close>, \<^verbatim>\<open>face_counts_per_roll\<close> and \<^verbatim>\<open>combo\<close>
  return what they returned before.
\<close>

theorem analyzer_snapshot:
  assumes "Analyzer_init gm s = Inr (a, s1)" and "play gm n s1 g = Inr (gm', s2, g')"
  shows "s2 ! results a = s1 ! results a \<and> game_results gm' \<noteq> Some (results a) \<and>
         jackpot a s2 = jackpot a s1 \<and>
         face_counts_per_roll a s2 = face_counts_per_roll a s1 \<and>
         combo a s2 = combo a s1"
proof -
  from Analyzer_init_Inr [OF assms(1)] obtain r where
    a: "a = \<lparr>game = gm, results = length s\<rparr>" and s1: "s1 = s @ [s ! r]" by blast
  from play_Inr [OF assms(2)] obtain t where
    gm': "gm' = gm\<lparr>game_results := Some (length s1)\<rparr>" and s2: "s2 = s1 @ [t]" by blast
  have same: "s2 ! results a = s1 ! results a"
    using a s1 s2 by (simp add: nth_append)
  moreover have "game_results gm' \<noteq> Some (results a)"
    using a s1 gm' by simp
  ultimately show ?thesis
    by (simp add: jackpot_def face_counts_per_roll_def combo_def)
qed

theorem analyzer_snapshot_witness:
  "Analyzer_init \<lparr>dice = [die12], game_results = Some 0\<rparr> [table2]
     = Inr (\<lparr>game = \<lparr>dice = [die12], game_results = Some 0\<rparr>, results = 1\<rparr>, [table2, table2]) \<and>
   play \<lparr>dice = [die12], game_results = Some 0\<rparr> 2 [table2, table2] rng0
     = Inr (\<lparr>dice = [die12], game_results = Some 2\<rparr>, [table2, table2, table11], rng0) \<and>
   [table2, table2, table11] ! 1 = [table2, table2] ! 1 \<and>
   jackpot \<lparr>game = \<lparr>dice = [die12], game_results = Some 0\<rparr>, results = 1\<rparr> [table2, table2, table11]
     = jackpot \<lparr>game = \<lparr>dice = [die12], game_results = Some 0\<rparr>, results = 1\<rparr> [table2, table2] \<and>
   face_counts_per_roll \<lparr>game = \<lparr>dice = [die12], game_results = Some 0\<rparr>, results = 1\<rparr> [table2, table2, table11]
     = face_counts_per_roll \<lparr>game = \<lparr>dice = [die12], game_results = Some 0\<rparr>, results = 1\<rparr> [table2, table2] \<and>
   combo \<lparr>game = \<lparr>dice = [die12], game_results = Some 0\<rparr>, results = 1\<rparr> [table2, table2, table11]
     = combo \<lparr>game = \<lparr>dice = [die12], game_results = Some 0\<rparr>, results = 1\<rparr> [table2, table2]"
  (is "?A \<and> ?P \<and> ?R")
proof -
  have a: ?A by (simp add: eval_defs)
  have p: ?P by (simp add: eval_defs)
  from analyzer_snapshot [OF a p] a p show ?thesis by simp
qed

subsection \<open>The analyzer's statistics\<close>

lemma set_unique: "set (unique xs) = set xs"
  by (simp add: unique_def)

lemma distinct_unique: "distinct (unique xs)"
  by (simp add: unique_def)

lemma set_value_counts: "set (value_counts xs) = (\<lambda>x. (x, count_list xs x)) ` set xs"
  by (simp add: value_counts_def set_unique)

lemma map_fst_value_counts: "mset (map fst (value_counts xs)) = mset (unique xs)"
proof -
  have "mset (map fst (value_counts xs))
      = image_mset fst (mset (map (\<lambda>x. (x, count_list xs x)) (unique xs)))"
    by (simp add: value_counts_def)
  then show ?thesis by (simp add: image_mset.compositionality comp_def)
qed

lemma distinct_value_counts: "distinct (map fst (value_counts xs))"
proof -
  have "distinct (unique xs)" by (rule distinct_unique)
  then show ?thesis
    using map_fst_value_counts [of xs] by (metis mset_eq_imp_distinct_iff)
qed

lemma set_fst_value_counts: "set (map fst (value_counts xs)) = set xs"
  using map_fst_value_counts [of xs] by (metis mset_eq_setD set_unique)

lemma map_of_value_counts:
  "map_of (value_counts xs) x = (if x \<in> set xs then Some (count_list xs x) else None)"
proof (cases "x \<in> set xs")
  case True
  then have "(x, count_list xs x) \<in> set (value_counts xs)"
    by (simp add: set_value_counts)
  with distinct_value_counts [of xs] True show ?thesis
    by (simp add: map_of_is_SomeI)
next
  case False
  then have "x \<notin> fst ` set (value_counts xs)"
    using set_fst_value_counts [of xs] by simp
  with False show ?thesis by (simp add: map_of_eq_None_iff)
qed

lemma sum_value_counts: "sum_list (map snd (value_counts xs)) = length xs"
proof -
  have "sum_list (map snd (value_counts xs)) = sum_mset (mset (map snd (value_counts xs)))"
    by (rule sum_mset_sum_list [symmetric])
  also have "\<dots> = sum_mset (mset (map (count_list xs) (unique xs)))"
    by (simp add: value_counts_def image_mset.compositionality comp_def)
  also have "\<dots> = sum_list (map (count_list xs) (unique xs))"
    by (rule sum_mset_sum_list)
  also have "\<dots> = sum (count_list xs) (set (unique xs))"
    using distinct_unique [of xs] by (simp add: sum_list_distinct_conv_sum_set)
  also have "\<dots> = length xs"
    by (simp add: set_unique sum_count_set)
  finally show ?thesis .
qed

lemma count_sorted_rows:
  "count_list (map sort rs) (sort r) = length (filter (\<lambda>r'. mset r' = mset r) rs)"
proof -
  have "sort r' = sort r \<longleftrightarrow> mset r' = mset r" for r' :: "'a list"
    by (metis mset_sort properties_for_sort sorted_sort)
  then show ?thesis
    by (induction rs) simp_all
qed

lemma analyzer_of_played:
  assumes "play gm n s g = Inr (gm', s', g')" and "Analyzer_init gm' s' = Inr (a, s'')"
  shows "\<exists>cols. list_all2 (\<lambda>d c. length c = nat n \<and> set c \<subseteq> set (face_col d)) (dice gm) cols \<and>
           s'' ! results a =
             \<lparr>index_name = Some ''roll_number'',
              index = (if dice gm = [] then [] else [0..<nat n]),
              columns = [0..<length (dice gm)], column_data = cols\<rparr> \<and>
           dice (game a) = dice gm"
proof -
  from play_then_wide [OF assms(1)] obtain cols where
    rd: "roll_dice (dice gm) n g = Inr (cols, g')"
    and nth: "(s' @ [s' ! length s]) ! length s' = s' ! length s"
    and gr: "game_results gm' = Some (length s)"
    and t: "s' ! length s =
             \<lparr>index_name = Some ''roll_number'',
              index = (if dice gm = [] then [] else [0..<nat n]),
              columns = [0..<length (dice gm)], column_data = cols\<rparr>"
    by blast
  from Analyzer_init_Inr [OF assms(2)] gr have
    a: "a = \<lparr>game = gm', results = length s'\<rparr>" and s'': "s'' = s' @ [s' ! length s]"
    by auto
  from play_Inr [OF assms(1)] have dg: "dice gm' = dice gm" by auto
  show ?thesis
    apply (rule exI [of _ cols])
    using roll_dice_Inr [OF rd] a s'' nth t dg by (simp del: nth_append_length)
qed

lemma sum_list_int: "sum_list (map int ks) = int (sum_list ks)"
  by (induction ks) simp_all

lemma length_rows: "length (rows t) = length (index t)"
  by (simp add: rows_def)

lemma length_row: "r \<in> set (rows t) \<Longrightarrow> length r = length (column_data t)"
  by (auto simp: rows_def)

lemma play1211:
  "\<exists>g'. play (Game_init [die12, die12]) 2 [] rng1 = Inr (game1211, [table1211], g')"
  by (simp add: eval_defs rng1_def game1211_def table1211_def)

lemma init1211:
  "Analyzer_init game1211 [table1211] = Inr (analyzer1211, [table1211, table1211])"
  by (simp add: eval_defs game1211_def analyzer1211_def)

lemmas analyzer_eval = jackpot_def nunique_axis1_def rows_def combo_def apply_sorted_def
  value_counts_def unique_def face_counts_per_roll_def astype_int_def fillna0_def
  apply_value_counts_def union_indexes_def analyzer1211_def table1211_def Let_def upt_rec

text \<open>
  C1. For an analyzer of a played game whose table is not empty, \<^verbatim>\<open>combo\<close> groups
  the rolls by the sorted tuple of their faces, that is by the multiset of faces: the
  combinations are pairwise different, they are exactly the sorted rows of the table,
  each comes with the number of rolls that have its multiset of faces, and the counts
  add up to the number of rolls.
\<close>

theorem combo_counts:
  assumes "play gm n s g = Inr (gm', s', g')" and "Analyzer_init gm' s' = Inr (a, s'')"
    and "index (s'' ! results a) \<noteq> []" and "columns (s'' ! results a) \<noteq> []"
  shows "distinct (map fst (combo a s'')) \<and>
         set (map fst (combo a s'')) = sort ` set (rows (s'' ! results a)) \<and>
         (\<forall>(c, m) \<in> set (combo a s'').
            sorted c \<and> m = int (length (filter (\<lambda>r. mset r = mset c) (rows (s'' ! results a))))) \<and>
         sum_list (map snd (combo a s'')) = int (length (rows (s'' ! results a))) \<and>
         int (length (rows (s'' ! results a))) = n"
proof -
  let ?t = "s'' ! results a"
  let ?vc = "value_counts (map sort (rows ?t))"
  have ap: "apply_sorted ?t = map sort (rows ?t)"
    using assms(3,4) by (simp add: apply_sorted_def)
  have fst: "map fst (combo a s'') = map fst ?vc"
    by (simp add: combo_def ap comp_def case_prod_unfold)
  have snd: "map snd (combo a s'') = map int (map snd ?vc)"
    by (simp add: combo_def ap comp_def case_prod_unfold)
  have d: "distinct (map fst (combo a s''))"
    unfolding fst by (rule distinct_value_counts)
  have st: "set (map fst (combo a s'')) = sort ` set (rows ?t)"
    unfolding fst set_fst_value_counts by simp
  have each: "\<forall>(c, m) \<in> set (combo a s'').
            sorted c \<and> m = int (length (filter (\<lambda>r. mset r = mset c) (rows ?t)))"
  proof (clarify)
    fix c m assume "(c, m) \<in> set (combo a s'')"
    then obtain k where "(c, k) \<in> set ?vc" and m: "m = int k"
      by (auto simp: combo_def ap)
    then obtain r where r: "r \<in> set (rows ?t)" and c: "c = sort r"
      and k: "k = count_list (map sort (rows ?t)) c"
      by (auto simp: set_value_counts)
    from c k m show "sorted c \<and> m = int (length (filter (\<lambda>r. mset r = mset c) (rows ?t)))"
      by (simp add: count_sorted_rows)
  qed
  have "sum_list (map snd (combo a s'')) = int (sum_list (map snd ?vc))"
    unfolding snd by (rule sum_list_int)
  then have sm: "sum_list (map snd (combo a s'')) = int (length (rows ?t))"
    by (simp add: sum_value_counts)
  from analyzer_of_played [OF assms(1,2)] assms(3)
  have ix: "index ?t = [0..<nat n]" and ne: "dice gm \<noteq> []"
    by (auto split: if_splits)
  from ne assms(1) have "0 \<le> n"
    by (auto simp: play_eq split: sum.splits dest: roll_dice_nonneg)
  with ix have n: "int (length (rows ?t)) = n" by (simp add: length_rows)
  from d st each sm n show ?thesis by blast
qed

theorem combo_counts_witness:
  "(\<exists>g'. play (Game_init [die12, die12]) 2 [] rng1 = Inr (game1211, [table1211], g')) \<and>
   Analyzer_init game1211 [table1211] = Inr (analyzer1211, [table1211, table1211]) \<and>
   index ([table1211, table1211] ! results analyzer1211) \<noteq> [] \<and>
   columns ([table1211, table1211] ! results analyzer1211) \<noteq> [] \<and>
   combo analyzer1211 [table1211, table1211] = [([1, 1], 1), ([1, 2], 1)] \<and>
   distinct (map fst (combo analyzer1211 [table1211, table1211])) \<and>
   sum_list (map snd (combo analyzer1211 [table1211, table1211])) = 2"
proof -
  from play1211 obtain g' where
    p: "play (Game_init [die12, die12]) 2 [] rng1 = Inr (game1211, [table1211], g')" ..
  have i: "index ([table1211, table1211] ! results analyzer1211) \<noteq> []"
    and c: "columns ([table1211, table1211] ! results analyzer1211) \<noteq> []"
    by (simp_all add: analyzer1211_def table1211_def)
  have e: "combo analyzer1211 [table1211, table1211] = [([1, 1], 1), ([1, 2], 1)]"
    by (simp add: analyzer_eval)
  from combo_counts [OF p init1211 i c] p init1211 i c e
  show ?thesis by auto
qed

lemma nunique_one:
  "length (remdups r) = 1 \<longleftrightarrow> r \<noteq> [] \<and> (\<forall>j<length r. \<forall>j'<length r. r ! j = r ! j')"
proof
  assume "length (remdups r) = 1"
  then have "card (set r) = 1" by (simp add: length_remdups_card_conv)
  then obtain x where x: "set r = {x}" by (auto simp: card_1_singleton_iff)
  then have "r \<noteq> []" by auto
  moreover have "r ! j = x" if "j < length r" for j
  proof -
    from that have "r ! j \<in> set r" by (rule nth_mem)
    with x show ?thesis by simp
  qed
  ultimately show "r \<noteq> [] \<and> (\<forall>j<length r. \<forall>j'<length r. r ! j = r ! j')" by simp
next
  assume a: "r \<noteq> [] \<and> (\<forall>j<length r. \<forall>j'<length r. r ! j = r ! j')"
  then have "\<And>y. y \<in> set r \<Longrightarrow> y = r ! 0"
    by (metis in_set_conv_nth length_greater_0_conv)
  moreover from a have "r ! 0 \<in> set r" by simp
  ultimately have "set r = {r ! 0}" by blast
  then have "card (set r) = 1" by simp
  then show "length (remdups r) = 1" by (simp add: length_remdups_card_conv)
qed

lemma length_filter_upt: "length (filter P [0..<m]) = card {i. i < m \<and> P i}"
proof -
  have "{i. i < length [0..<m] \<and> P ([0..<m] ! i)} = {i. i < m \<and> P i}" by auto
  then show ?thesis by (simp add: length_filter_conv_card)
qed

text \<open>
  C3. For an analyzer of a played game, \<^verbatim>\<open>jackpot\<close> is the number of rolls in
  which all dice show the same face; it is non-negative and at most the number of
  rolls, and with exactly one die it is the number of rolls.
\<close>

theorem jackpot_count:
  assumes "play gm n s g = Inr (gm', s', g')" and "Analyzer_init gm' s' = Inr (a, s'')"
  shows "jackpot a s'' =
           int (card {i. i < length (index (s'' ! results a)) \<and>
                  (\<forall>j<length (dice (game a)). \<forall>j'<length (dice (game a)).
                     column_data (s'' ! results a) ! j ! i = column_data (s'' ! results a) ! j' ! i)}) \<and>
         0 \<le> jackpot a s'' \<and>
         jackpot a s'' \<le> int (length (index (s'' ! results a))) \<and>
         (length (dice (game a)) = 1 \<longrightarrow> jackpot a s'' = n)"
proof -
  let ?t = "s'' ! results a"
  let ?k = "length (dice gm)"
  let ?m = "length (index ?t)"
  from analyzer_of_played [OF assms] obtain cols where
    la: "list_all2 (\<lambda>d c. length c = nat n \<and> set c \<subseteq> set (face_col d)) (dice gm) cols"
    and t: "?t = \<lparr>index_name = Some ''roll_number'',
              index = (if dice gm = [] then [] else [0..<nat n]),
              columns = [0..<length (dice gm)], column_data = cols\<rparr>"
    and dg: "dice (game a) = dice gm" by blast
  have len: "length cols = ?k" using la by (simp add: list_all2_lengthD)
  have cd: "column_data ?t = cols" using t by simp
  let ?P = "\<lambda>i. length (remdups (map (\<lambda>c. c ! i) cols)) = 1"
  let ?Q = "\<lambda>i. \<forall>j<?k. \<forall>j'<?k. cols ! j ! i = cols ! j' ! i"
  have j: "jackpot a s'' = int (card {i. i < ?m \<and> ?P i})"
    by (simp add: jackpot_def nunique_axis1_def rows_def cd filter_map comp_def length_filter_upt)
  have pq: "?P i \<longleftrightarrow> ?Q i" if "i < ?m" for i
  proof -
    from that t have "dice gm \<noteq> []" by (auto split: if_splits)
    with len have "cols \<noteq> []" by auto
    with nunique_one [of "map (\<lambda>c. c ! i) cols"] show ?thesis by (simp add: len)
  qed
  then have "{i. i < ?m \<and> ?P i} = {i. i < ?m \<and> ?Q i}" by blast
  with j have j1: "jackpot a s'' = int (card {i. i < ?m \<and> ?Q i})" by simp
  have "card {i. i < ?m \<and> ?Q i} \<le> card {i. i < ?m}"
    by (intro card_mono) auto
  with j1 have j2: "jackpot a s'' \<le> int ?m" by simp
  have j3: "jackpot a s'' = n" if one: "?k = 1"
  proof -
    from one have ne: "dice gm \<noteq> []" by auto
    with assms(1) have "0 \<le> n"
      by (auto simp: play_eq split: sum.splits dest: roll_dice_nonneg)
    moreover from ne t have "?m = nat n" by simp
    moreover from one have "{i. i < ?m \<and> ?Q i} = {i. i < ?m}" by auto
    ultimately show ?thesis using j1 by simp
  qed
  from j1 j2 j3 show ?thesis by (simp add: dg cd)
qed

theorem jackpot_count_witness:
  "(\<exists>g'. play (Game_init [die12, die12]) 2 [] rng1 = Inr (game1211, [table1211], g')) \<and>
   Analyzer_init game1211 [table1211] = Inr (analyzer1211, [table1211, table1211]) \<and>
   jackpot analyzer1211 [table1211, table1211] = 1 \<and>
   jackpot analyzer1211 [table1211, table1211]
     \<le> int (length (index ([table1211, table1211] ! results analyzer1211))) \<and>
   play (Game_init [die12]) 2 [] rng0
     = Inr (\<lparr>dice = [die12], game_results = Some 0\<rparr>, [table11], rng0) \<and>
   Analyzer_init \<lparr>dice = [die12], game_results = Some 0\<rparr> [table11]
     = Inr (\<lparr>game = \<lparr>dice = [die12], game_results = Some 0\<rparr>, results = 1\<rparr>, [table11, table11]) \<and>
   length (dice (game \<lparr>game = \<lparr>dice = [die12], game_results = Some 0\<rparr>, results = 1\<rparr>)) = 1 \<and>
   jackpot \<lparr>game = \<lparr>dice = [die12], game_results = Some 0\<rparr>, results = 1\<rparr> [table11, table11] = 2"
proof -
  from play1211 obtain g' where
    p: "play (Game_init [die12, die12]) 2 [] rng1 = Inr (game1211, [table1211], g')" ..
  have j: "jackpot analyzer1211 [table1211, table1211] = 1"
    by (simp add: analyzer_eval)
  have p1: "play (Game_init [die12]) 2 [] rng0
     = Inr (\<lparr>dice = [die12], game_results = Some 0\<rparr>, [table11], rng0)"
    by (simp add: eval_defs)
  have a1: "Analyzer_init \<lparr>dice = [die12], game_results = Some 0\<rparr> [table11]
     = Inr (\<lparr>game = \<lparr>dice = [die12], game_results = Some 0\<rparr>, results = 1\<rparr>, [table11, table11])"
    by (simp add: eval_defs)
  from jackpot_count [OF p init1211] jackpot_count [OF p1 a1] p init1211 j p1 a1
  show ?thesis by auto
qed

lemma union_indexes_props:
  assumes "ixs \<noteq> []" and "\<forall>i\<in>set ixs. distinct i"
  shows "distinct (union_indexes ixs) \<and> set (union_indexes ixs) = (\<Union>i\<in>set ixs. set i)"
proof (cases ixs)
  case Nil
  with assms show ?thesis by simp
next
  case (Cons i js)
  show ?thesis
  proof (cases "list_all (\<lambda>j. j = i) js")
    case True
    then have "\<forall>j\<in>set js. j = i" by (simp add: list_all_iff)
    then have "(\<Union>j\<in>set ixs. set j) = set i" using Cons by auto
    with True Cons assms(2) show ?thesis by (simp add: union_indexes_def)
  next
    case False
    with Cons show ?thesis by (simp add: union_indexes_def)
  qed
qed

lemma fillna_cell:
  "(case map_of (value_counts r) f of None \<Rightarrow> 0 | Some m \<Rightarrow> m) = count_list r f"
  by (simp add: map_of_value_counts)

lemma face_counts_eq:
  assumes "index t \<noteq> []" and "columns t \<noteq> []"
  shows "astype_int (fillna0 (apply_value_counts t)) =
           \<lparr>counts_index = index t,
            counts_columns = map FaceLabel (union_indexes (map (\<lambda>r. map fst (value_counts r)) (rows t))),
            counts_rows = map (\<lambda>r. map (\<lambda>f. int (count_list r f))
              (union_indexes (map (\<lambda>r. map fst (value_counts r)) (rows t)))) (rows t)\<rparr>"
  using assms
  by (simp add: astype_int_def fillna0_def apply_value_counts_def Let_def comp_def fillna_cell)

lemma row_sum:
  assumes "distinct fs" and "set r \<subseteq> set fs"
  shows "sum_list (map (\<lambda>f. int (count_list r f)) fs) = int (length r)"
proof -
  have "sum_list (map (\<lambda>f. int (count_list r f)) fs) = int (sum_list (map (count_list r) fs))"
    using sum_list_int [of "map (count_list r) fs"] by (simp add: comp_def)
  also have "sum_list (map (count_list r) fs) = sum (count_list r) (set fs)"
    using assms(1) by (simp add: sum_list_distinct_conv_sum_set)
  also have "\<dots> = length r"
    using assms(2) by (simp add: sum_count_set)
  finally show ?thesis .
qed

lemma faces_of_rows:
  assumes "\<forall>c\<in>set (column_data t). length c = length (index t)"
  shows "(\<Union>r\<in>set (rows t). set r) = (\<Union>c\<in>set (column_data t). set c)"
proof (intro set_eqI iffI)
  fix x assume "x \<in> (\<Union>r\<in>set (rows t). set r)"
  then obtain i c where "i < length (index t)" "c \<in> set (column_data t)" "x = c ! i"
    by (auto simp: rows_def)
  with assms have "c \<in> set (column_data t)" "x \<in> set c" by (auto simp: in_set_conv_nth)
  then show "x \<in> (\<Union>c\<in>set (column_data t). set c)" by blast
next
  fix x assume "x \<in> (\<Union>c\<in>set (column_data t). set c)"
  then obtain c where c: "c \<in> set (column_data t)" and "x \<in> set c" by blast
  then obtain i where "i < length c" "x = c ! i" by (auto simp: in_set_conv_nth)
  with assms c have "i < length (index t)" "x \<in> set (map (\<lambda>c. c ! i) (column_data t))"
    by auto
  then show "x \<in> (\<Union>r\<in>set (rows t). set r)"
    unfolding rows_def by (intro UN_I [of "map (\<lambda>c. c ! i) (column_data t)"]) auto
qed

lemma fst_set_value_counts: "fst ` set (value_counts xs) = set xs"
  using set_fst_value_counts [of xs] by simp

text \<open>
  With at least one roll the table of counts is as documented: one row per roll, the
  columns are, without repetition, the faces that occur anywhere in the results, every
  row has an entry for every column, the entry for a face is the number of dice showing
  it in that roll (0 when the face is absent), every entry is non-negative, and each row
  adds up to the number of dice.
\<close>

lemma face_counts_table:
  assumes "play gm n s g = Inr (gm', s', g')" and "Analyzer_init gm' s' = Inr (a, s'')"
    and "index (s'' ! results a) \<noteq> []"
  shows "counts_index (face_counts_per_roll a s'') = index (s'' ! results a) \<and>
         length (counts_rows (face_counts_per_roll a s'')) = length (index (s'' ! results a)) \<and>
         distinct (counts_columns (face_counts_per_roll a s'')) \<and>
         set (counts_columns (face_counts_per_roll a s'')) =
           FaceLabel ` (\<Union>c\<in>set (column_data (s'' ! results a)). set c) \<and>
         length (columns (s'' ! results a)) = length (dice (game a)) \<and>
         (\<forall>i<length (index (s'' ! results a)).
            length (counts_rows (face_counts_per_roll a s'') ! i) =
              length (counts_columns (face_counts_per_roll a s'')) \<and>
            (\<forall>j<length (counts_columns (face_counts_per_roll a s'')). \<forall>f.
               counts_columns (face_counts_per_roll a s'') ! j = FaceLabel f \<longrightarrow>
                 counts_rows (face_counts_per_roll a s'') ! i ! j =
                   int (count_list (rows (s'' ! results a) ! i) f) \<and>
                 (f \<notin> set (rows (s'' ! results a) ! i) \<longrightarrow>
                    counts_rows (face_counts_per_roll a s'') ! i ! j = 0)) \<and>
            (\<forall>c\<in>set (counts_rows (face_counts_per_roll a s'') ! i). 0 \<le> c) \<and>
            sum_list (counts_rows (face_counts_per_roll a s'') ! i) = int (length (dice (game a))))"
proof -
  let ?t = "s'' ! results a"
  let ?fc = "face_counts_per_roll a s''"
  let ?fs = "union_indexes (map (\<lambda>r. map fst (value_counts r)) (rows ?t))"
  from analyzer_of_played [OF assms(1,2)] obtain cols where
    la: "list_all2 (\<lambda>d c. length c = nat n \<and> set c \<subseteq> set (face_col d)) (dice gm) cols"
    and t: "?t = \<lparr>index_name = Some ''roll_number'',
              index = (if dice gm = [] then [] else [0..<nat n]),
              columns = [0..<length (dice gm)], column_data = cols\<rparr>"
    and dg: "dice (game a) = dice gm" by blast
  from assms(3) t have ne: "dice gm \<noteq> []" and ix: "index ?t = [0..<nat n]"
    by (auto split: if_splits)
  have len: "length cols = length (dice gm)" using la by (simp add: list_all2_lengthD)
  have cd: "column_data ?t = cols" and cl: "columns ?t = [0..<length (dice gm)]"
    using t by simp_all
  have cne: "columns ?t \<noteq> []" using cl ne by simp
  have all: "\<forall>c\<in>set (column_data ?t). length c = length (index ?t)"
    using la ix cd by (auto simp: list_all2_conv_all_nth in_set_conv_nth)
  have fc: "?fc = \<lparr>counts_index = index ?t, counts_columns = map FaceLabel ?fs,
                  counts_rows = map (\<lambda>r. map (\<lambda>f. int (count_list r f)) ?fs) (rows ?t)\<rparr>"
    unfolding face_counts_per_roll_def using assms(3) cne by (rule face_counts_eq)
  have rne: "map (\<lambda>r. map fst (value_counts r)) (rows ?t) \<noteq> []"
    using assms(3) by (simp add: rows_def)
  have "\<forall>i\<in>set (map (\<lambda>r. map fst (value_counts r)) (rows ?t)). distinct i"
    by (auto simp: distinct_value_counts)
  from union_indexes_props [OF rne this]
  have dfs: "distinct ?fs" and sfs: "set ?fs = (\<Union>r\<in>set (rows ?t). set r)"
    by (simp_all add: fst_set_value_counts)
  have c1: "counts_index ?fc = index ?t" by (simp add: fc)
  have c2: "length (counts_rows ?fc) = length (index ?t)" by (simp add: fc length_rows)
  have c3: "distinct (counts_columns ?fc)"
    using dfs by (simp add: fc distinct_map inj_on_def)
  have c4: "set (counts_columns ?fc) = FaceLabel ` (\<Union>c\<in>set (column_data ?t). set c)"
    using sfs faces_of_rows [OF all] by (simp add: fc)
  have c5: "length (columns ?t) = length (dice (game a))" by (simp add: cl dg)
  have c6: "length (counts_rows ?fc ! i) = length (counts_columns ?fc) \<and>
            (\<forall>j<length (counts_columns ?fc). \<forall>f.
               counts_columns ?fc ! j = FaceLabel f \<longrightarrow>
                 counts_rows ?fc ! i ! j = int (count_list (rows ?t ! i) f) \<and>
                 (f \<notin> set (rows ?t ! i) \<longrightarrow> counts_rows ?fc ! i ! j = 0)) \<and>
            (\<forall>c\<in>set (counts_rows ?fc ! i). 0 \<le> c) \<and>
            sum_list (counts_rows ?fc ! i) = int (length (dice (game a)))"
    if i: "i < length (index ?t)" for i
  proof -
    let ?r = "rows ?t ! i"
    from i have ir: "i < length (rows ?t)" by (simp add: length_rows)
    then have row: "counts_rows ?fc ! i = map (\<lambda>f. int (count_list ?r f)) ?fs"
      by (simp add: fc)
    from ir have mem: "?r \<in> set (rows ?t)" by (rule nth_mem)
    then have sub: "set ?r \<subseteq> set ?fs" unfolding sfs by blast
    from mem have lr: "length ?r = length (dice (game a))"
      by (simp add: length_row cd len dg)
    have cc: "counts_columns ?fc = map FaceLabel ?fs" by (simp add: fc)
    have a1: "length (counts_rows ?fc ! i) = length (counts_columns ?fc)"
      unfolding row cc by simp
    have a2: "\<forall>j<length (counts_columns ?fc). \<forall>f.
               counts_columns ?fc ! j = FaceLabel f \<longrightarrow>
                 counts_rows ?fc ! i ! j = int (count_list ?r f) \<and>
                 (f \<notin> set ?r \<longrightarrow> counts_rows ?fc ! i ! j = 0)"
      unfolding row cc by simp
    have a3: "\<forall>c\<in>set (counts_rows ?fc ! i). 0 \<le> c"
      unfolding row by auto
    have a4: "sum_list (counts_rows ?fc ! i) = int (length (dice (game a)))"
      unfolding row using row_sum [OF dfs sub] lr by simp
    from a1 a2 a3 a4 show ?thesis by blast
  qed
  from c1 c2 c3 c4 c5 c6 show ?thesis by blast
qed

lemma face_counts_table_example:
  "(\<exists>g'. play (Game_init [die12, die12]) 2 [] rng1 = Inr (game1211, [table1211], g')) \<and>
   Analyzer_init game1211 [table1211] = Inr (analyzer1211, [table1211, table1211]) \<and>
   index ([table1211, table1211] ! results analyzer1211) \<noteq> [] \<and>
   face_counts_per_roll analyzer1211 [table1211, table1211]
     = \<lparr>counts_index = [0, 1], counts_columns = [FaceLabel 1, FaceLabel 2],
        counts_rows = [[2, 0], [1, 1]]\<rparr> \<and>
   distinct (counts_columns (face_counts_per_roll analyzer1211 [table1211, table1211])) \<and>
   sum_list (counts_rows (face_counts_per_roll analyzer1211 [table1211, table1211]) ! 0)
     = int (length (dice (game analyzer1211)))"
proof -
  from play1211 obtain g' where
    p: "play (Game_init [die12, die12]) 2 [] rng1 = Inr (game1211, [table1211], g')" ..
  have i: "index ([table1211, table1211] ! results analyzer1211) \<noteq> []"
    by (simp add: analyzer1211_def table1211_def)
  have e: "face_counts_per_roll analyzer1211 [table1211, table1211]
     = \<lparr>counts_index = [0, 1], counts_columns = [FaceLabel 1, FaceLabel 2],
        counts_rows = [[2, 0], [1, 1]]\<rparr>"
    by (simp add: analyzer_eval)
  have l: "(0::nat) < length (index ([table1211, table1211] ! results analyzer1211))"
    by (simp add: analyzer1211_def table1211_def)
  from face_counts_table [OF p init1211 i] l p init1211 i e
  show ?thesis by auto
qed

text \<open>
  C2. \<^verbatim>\<open>face_counts_per_roll\<close> returns a table with one row per roll whose columns
  are the faces occurring anywhere in the results, zero-filled, with non-negative
  entries and rows that add up to the number of dice. For a table without rolls the
  code does not do so: after \<^verbatim>\<open>play(0)\<close> with one die \<^verbatim>\<open>DataFrame.apply\<close> returns
  a copy of the results table, and the one column of the result is the die position 0,
  not a face (no face was rolled), against the method's docstring (each column is a
  face).
\<close>

theorem face_counts_no_rolls:
  "play (Game_init [die12]) 0 [] rng0
     = Inr (\<lparr>dice = [die12], game_results = Some 0\<rparr>, [table_norolls], rng0) \<and>
   Analyzer_init \<lparr>dice = [die12], game_results = Some 0\<rparr> [table_norolls]
     = Inr (\<lparr>game = \<lparr>dice = [die12], game_results = Some 0\<rparr>, results = 1\<rparr>,
            [table_norolls, table_norolls]) \<and>
   counts_columns (face_counts_per_roll
       \<lparr>game = \<lparr>dice = [die12], game_results = Some 0\<rparr>, results = 1\<rparr>
       [table_norolls, table_norolls]) = [DieLabel 0] \<and>
   \<Union> (set ` set (column_data table_norolls)) = {}"
  by (simp add: eval_defs table_norolls_def face_counts_per_roll_def astype_int_def fillna0_def
      apply_value_counts_def)

text \<open>
  C10. \<^verbatim>\<open>permutation_count\<close> returns the table that \<^verbatim>\<open>face_counts_per_roll\<close>
  returns on the same results.
\<close>

theorem permutation_count_eq:
  "permutation_count a s = face_counts_per_roll a s"
  by (simp add: permutation_count_def face_counts_per_roll_def)

end
